theory Spec2Isabelle
  imports Complex_Main
begin

section \<open>JavaScript values\<close>

text \<open>
  The helpers of \<^verbatim>\<open>clients-and-utilities/ts/ddb.ts\<close> (and its CommonJS
  twin \<^verbatim>\<open>clients-and-utilities/js/ddb.js\<close>) are untyped at run time: an item
  is any object, a caught exception is any value. The values are modelled as the
  datatype below. A plain object \<open>JObj\<close> is the list of its own enumerable
  properties, in the order the object literal writes them: items, responses and
  diagnostic records are such objects. \<open>JInst hidden own\<close> is an object that has,
  besides its own enumerable properties \<open>own\<close>, the properties \<open>hidden\<close> that a
  property read finds but \<^verbatim>\<open>JSON.stringify\<close> does not visit: inherited ones
  (\<^verbatim>\<open>name\<close> of an \<^verbatim>\<open>Error\<close>) and own ones that are not enumerable
  (\<^verbatim>\<open>message\<close> and \<^verbatim>\<open>stack\<close> of an \<^verbatim>\<open>Error\<close>). Numbers are
  the reals together with \<^verbatim>\<open>NaN\<close> and the two infinities; nothing below does
  arithmetic on them, only the test for truthiness reads them.
\<close>

datatype jsval =
    JUndefined
  | JNull
  | JBool bool
  | JNum real
  | JNaN
  | JInfinity bool
  | JBigInt int
  | JStr string
  | JSymbol string
  | JArr "jsval list"
  | JObj "(string \<times> jsval) list"
  | JInst "(string \<times> jsval) list" "(string \<times> jsval) list"

text \<open>
  \<^verbatim>\<open>ToBoolean\<close>: \<^verbatim>\<open>undefined\<close>, \<^verbatim>\<open>null\<close>, \<^verbatim>\<open>false\<close>,
  \<^verbatim>\<open>0\<close>, \<^verbatim>\<open>NaN\<close>, \<^verbatim>\<open>0n\<close> and the empty string are falsy, every
  other value is truthy.
\<close>

fun truthy :: "jsval \<Rightarrow> bool" where
  "truthy JUndefined = False"
| "truthy JNull = False"
| "truthy (JBool b) = b"
| "truthy (JNum r) = (r \<noteq> 0)"
| "truthy JNaN = False"
| "truthy (JInfinity s) = True"
| "truthy (JBigInt n) = (n \<noteq> 0)"
| "truthy (JStr s) = (s \<noteq> [])"
| "truthy (JSymbol d) = True"
| "truthy (JArr xs) = True"
| "truthy (JObj fs) = True"
| "truthy (JInst hidden fs) = True"

text \<open>
  The property read \<^verbatim>\<open>v.k\<close> for the property names this file reads
  (\<^verbatim>\<open>name\<close>, \<^verbatim>\<open>stack\<close>, \<^verbatim>\<open>message\<close>): an object yields the
  property (an own enumerable one before a hidden one) or \<^verbatim>\<open>undefined\<close>; a
  primitive or an array has none of the three, so the read yields \<^verbatim>\<open>undefined\<close>. (A read on \<^verbatim>\<open>null\<close> or
  \<^verbatim>\<open>undefined\<close> throws in JavaScript; the only reads in the source stand behind
  a truthiness test of the value, which \<open>convertErrorObject\<close> below mirrors.)
\<close>

fun js_get :: "jsval \<Rightarrow> string \<Rightarrow> jsval" where
  "js_get (JObj fs) k = (case map_of fs k of Some v \<Rightarrow> v | None \<Rightarrow> JUndefined)"
| "js_get (JInst hidden fs) k =
     (case map_of (fs @ hidden) k of Some v \<Rightarrow> v | None \<Rightarrow> JUndefined)"
| "js_get v k = JUndefined"

text \<open>The operator \<^verbatim>\<open>a || b\<close>: the first operand when it is truthy, else the second.\<close>

definition js_or :: "jsval \<Rightarrow> jsval \<Rightarrow> jsval" where
  "js_or a b = (if truthy a then a else b)"

text \<open>
  \<^verbatim>\<open>console.log(JSON.stringify(log, null, 2))\<close>. The serialisation walks the
  elements of arrays and the own enumerable properties of objects, and throws a
  \<^verbatim>\<open>TypeError\<close> when it meets a \<^verbatim>\<open>BigInt\<close>; every other value of the
  datatype has a serialisation (\<^verbatim>\<open>undefined\<close> and symbols are left out or
  written \<^verbatim>\<open>null\<close>, as are \<^verbatim>\<open>NaN\<close> and the infinities; a value of the
  datatype is a finite tree, so there is no cycle). The text that is printed is not
  modelled: a printed record stands for its text. The result is \<open>Inl\<close> the error
  thrown, or \<open>Inr\<close> the record printed.
\<close>

fun has_bigint :: "jsval \<Rightarrow> bool" where
  "has_bigint (JBigInt n) = True"
| "has_bigint (JArr xs) = list_ex has_bigint xs"
| "has_bigint (JObj fs) = list_ex (\<lambda>p. has_bigint (snd p)) fs"
| "has_bigint (JInst hidden fs) = list_ex (\<lambda>p. has_bigint (snd p)) fs"
| "has_bigint v = False"

definition stringify_error :: jsval where
  "stringify_error =
     JInst [(''name'', JStr ''TypeError''),
            (''message'', JStr ''Do not know how to serialize a BigInt''),
            (''stack'', JStr ''TypeError: Do not know how to serialize a BigInt'')] []"

definition console_log_JSON :: "jsval \<Rightarrow> jsval + jsval" where
  "console_log_JSON entry = (if has_bigint entry then Inl stringify_error else Inr entry)"

section \<open>convertErrorObject\<close>

text \<open>
  \<^verbatim>\<open>
  function convertErrorObject(errorObject) {
    let loggerError; let responseError;
    if (errorObject && errorObject.name && errorObject.stack && errorObject.message) {
      loggerError = { name: errorObject.name, message: errorObject.message,
                      stack: errorObject.stack || "No stack provided" };
      responseError = { name: errorObject.name, message: errorObject.message };
    } else {
      loggerError = errorObject;
      responseError = errorObject;
    }
    return { logger: loggerError, response: responseError };
  }
  \<close>
\<close>

record ConvertErrorObject =
  logger :: jsval
  response :: jsval

definition convertErrorObject :: "jsval \<Rightarrow> ConvertErrorObject" where
  "convertErrorObject errorObject =
     (if truthy errorObject \<and> truthy (js_get errorObject ''name'')
         \<and> truthy (js_get errorObject ''stack'') \<and> truthy (js_get errorObject ''message'')
      then \<lparr> logger = JObj [(''name'', js_get errorObject ''name''),
                            (''message'', js_get errorObject ''message''),
                            (''stack'', js_or (js_get errorObject ''stack'') (JStr ''No stack provided''))],
             response = JObj [(''name'', js_get errorObject ''name''),
                              (''message'', js_get errorObject ''message'')] \<rparr>
      else \<lparr> logger = errorObject, response = errorObject \<rparr>)"

section \<open>splitEvery\<close>

text \<open>
  Modelled from the spec: \<^verbatim>\<open>splitEvery\<close> is imported from the package
  \<^verbatim>\<open>ramda\<close>, whose code is not part of the repository. The spec (4.1, step 2)
  says the sequence is partitioned "into contiguous groups of size at most 25, preserving
  order; the last group may be smaller". The definition follows the loop of the package,
  which does exactly that:
  \<^verbatim>\<open>
  function splitEvery(n, list) {
    if (n <= 0) { throw new Error('First argument to splitEvery must be a positive integer'); }
    var result = []; var idx = 0;
    while (idx < list.length) { result.push(slice(idx, idx += n, list)); }
    return result;
  }
  \<close>
  \<open>slice from to list\<close> is \<^verbatim>\<open>list.slice(from, to)\<close> for indices that are not
  negative. The loop is entered with \<open>0 < n\<close> only; the guard of the model repeats that
  condition, on which the termination of the loop rests.
\<close>

definition slice :: "nat \<Rightarrow> nat \<Rightarrow> 'a list \<Rightarrow> 'a list" where
  "slice from to list = take (to - from) (drop from list)"

function splitEvery_loop :: "nat \<Rightarrow> 'a list \<Rightarrow> nat \<Rightarrow> 'a list list \<Rightarrow> 'a list list" where
  "splitEvery_loop n list idx result =
     (if idx < length list \<and> 0 < n
      then splitEvery_loop n list (idx + n) (result @ [slice idx (idx + n) list])
      else result)"
  by pat_completeness auto
termination
  by (relation "measure (\<lambda>(n, list, idx, result). length list - idx)") auto

declare splitEvery_loop.simps [simp del]

definition splitEvery_error :: jsval where
  "splitEvery_error =
     JInst [(''name'', JStr ''Error''),
            (''message'', JStr ''First argument to splitEvery must be a positive integer''),
            (''stack'', JStr ''Error: First argument to splitEvery must be a positive integer'')] []"

definition splitEvery :: "int \<Rightarrow> 'a list \<Rightarrow> jsval + 'a list list" where
  "splitEvery n list =
     (if n \<le> 0 then Inl splitEvery_error else Inr (splitEvery_loop (nat n) list 0 []))"

section \<open>batchWriteItem\<close>

text \<open>
  \<^verbatim>\<open>
  async function batchWriteItem(tableName, action, items) {
    try {                                       // ts/ddb.ts only
      const processedItems = [];
      if (action === "put") {
        items.forEach((item) => { processedItems.push({ PutRequest: { Item: item } }); });
      } else {
        items.forEach((item) => { processedItems.push({ DeleteRequest: { Key: item } }); });
      }
      const processedItemBatches = splitEvery(25, processedItems);
      const batchCount = processedItemBatches.length;
      const batchRequests = processedItemBatches.map(async (batch, i) => {
        const command = new BatchWriteCommand({ RequestItems: { [tableName]: batch } });
        const res = await ddbDocClient.send(command);
        const log = { message: "Complete batchWrite", batch_number: i + "out of " + batchCount,
                      command_response: res, input: batch };
        console.log(JSON.stringify(log, null, 2));
      });
      await Promise.all(batchRequests);
    } catch (e) {                               // ts/ddb.ts only
      const log = { message: "Fail to batchWriteItem", action, items,
                    error: convertErrorObject(e).logger };
      console.log(JSON.stringify(log, null, 2));
      throw e;
    }
  }
  \<close>
  The two modules differ in the \<^verbatim>\<open>try\<close>/\<^verbatim>\<open>catch\<close> only, which
  \<^verbatim>\<open>js/ddb.js\<close> does not have.
\<close>

datatype module = TS | JS

subsection \<open>The write operations\<close>

definition put_request :: "jsval \<Rightarrow> jsval" where
  "put_request item = JObj [(''PutRequest'', JObj [(''Item'', item)])]"

definition delete_request :: "jsval \<Rightarrow> jsval" where
  "delete_request item = JObj [(''DeleteRequest'', JObj [(''Key'', item)])]"

text \<open>
  The two \<^verbatim>\<open>forEach\<close> loops, each pushing one operation per item onto
  \<^verbatim>\<open>processedItems\<close>. The test \<^verbatim>\<open>action === "put"\<close> is strict equality
  with the string.
\<close>

definition processItems :: "jsval \<Rightarrow> jsval list \<Rightarrow> jsval list" where
  "processItems action items =
     (if action = JStr ''put''
      then foldl (\<lambda>processedItems item. processedItems @ [put_request item]) [] items
      else foldl (\<lambda>processedItems item. processedItems @ [delete_request item]) [] items)"

definition BatchWriteCommand :: "string \<Rightarrow> jsval list \<Rightarrow> jsval" where
  "BatchWriteCommand tableName batch =
     JObj [(''RequestItems'', JObj [(tableName, JArr batch)])]"

subsection \<open>The diagnostic records\<close>

text \<open>
  A record is the object that the source gives to \<^verbatim>\<open>JSON.stringify\<close> before
  \<^verbatim>\<open>console.log\<close> prints it.
  \<^verbatim>\<open>i + "out of " + batchCount\<close> concatenates the decimal numerals of the index
  and of the count with the string between them.
\<close>

definition digit_char :: "nat \<Rightarrow> char" where
  "digit_char d = ''0123456789'' ! d"

fun string_of_nat :: "nat \<Rightarrow> string" where
  "string_of_nat n =
     (if n < 10 then [digit_char n]
      else string_of_nat (n div 10) @ [digit_char (n mod 10)])"

declare string_of_nat.simps [simp del]

definition complete_log :: "nat \<Rightarrow> nat \<Rightarrow> jsval \<Rightarrow> jsval list \<Rightarrow> jsval" where
  "complete_log i batchCount res batch =
     JObj [(''message'', JStr ''Complete batchWrite''),
           (''batch_number'', JStr (string_of_nat i @ ''out of '' @ string_of_nat batchCount)),
           (''command_response'', res),
           (''input'', JArr batch)]"

definition fail_log :: "jsval \<Rightarrow> jsval list \<Rightarrow> jsval \<Rightarrow> jsval" where
  "fail_log action items e =
     JObj [(''message'', JStr ''Fail to batchWriteItem''),
           (''action'', action),
           (''items'', JArr items),
           (''error'', logger (convertErrorObject e))]"

text \<open>
  The handler. What the function does with a value \<open>e\<close> thrown inside its body:
  the TypeScript module builds the failure record, prints it and throws \<open>e\<close> again;
  when the record cannot be serialised nothing is printed and the error of the
  serialisation leaves the handler instead of \<open>e\<close>. The CommonJS module has no
  handler: it prints nothing and \<open>e\<close> goes to the caller. The result is the records
  printed and the value with which the promise of the call rejects.
\<close>

definition catch_block :: "module \<Rightarrow> jsval \<Rightarrow> jsval list \<Rightarrow> jsval \<Rightarrow> jsval list \<times> jsval" where
  "catch_block m action items e =
     (case m of
        TS \<Rightarrow> (case console_log_JSON (fail_log action items e) of
                 Inr printed \<Rightarrow> ([printed], e)
               | Inl t \<Rightarrow> ([], t))
      | JS \<Rightarrow> ([], e))"

subsection \<open>Promises and the run of a call\<close>

text \<open>
  The function is asynchronous. Its synchronous part builds the batches and, inside
  \<^verbatim>\<open>map\<close>, runs every callback up to its \<^verbatim>\<open>await\<close>: all the commands are
  given to \<^verbatim>\<open>ddbDocClient.send\<close>, in the order of the batches, before anything
  else happens. What happens next is decided by the store: the promise of each
  \<^verbatim>\<open>send\<close> settles at some time, with a response or with an error. A run is
  therefore described by a schedule, the list of settlements in the order they arrive:
  \<open>(i, Inr res)\<close> when the \<open>i\<close>-th \<^verbatim>\<open>send\<close> resolves with \<open>res\<close>,
  \<open>(i, Inl e)\<close> when it rejects with \<open>e\<close>. The reactions to one settlement (the
  rest of the callback, \<^verbatim>\<open>Promise.all\<close>, the handler of the function) run to
  completion before the next settlement is delivered, as the jobs of one network event
  do on the event loop.

  The state of a call: the commands sent, the promises of the callbacks
  (\<^verbatim>\<open>batchRequests\<close>), the records written to the console and the promise the
  caller holds.
\<close>

datatype promise = Pending | Fulfilled jsval | Rejected jsval

type_synonym settlement = "nat \<times> (jsval + jsval)"

record call_state =
  sent :: "jsval list"
  batchRequests :: "promise list"
  console :: "jsval list"
  returned :: promise

text \<open>
  The synchronous part, after \<^verbatim>\<open>splitEvery\<close> returned the batches.
  \<^verbatim>\<open>Promise.all\<close> of no promise resolves at once, and so does the call.
\<close>

definition dispatch :: "string \<Rightarrow> jsval list list \<Rightarrow> call_state" where
  "dispatch tableName processedItemBatches =
     \<lparr> sent = map (BatchWriteCommand tableName) processedItemBatches,
       batchRequests = replicate (length processedItemBatches) Pending,
       console = [],
       returned = (if processedItemBatches = [] then Fulfilled JUndefined else Pending) \<rparr>"

text \<open>
  The callback of \<^verbatim>\<open>map\<close> for the batch of index \<open>i\<close>, from its
  \<^verbatim>\<open>await\<close> on: when \<^verbatim>\<open>send\<close> rejects with \<open>e\<close> the callback throws
  \<open>e\<close>; when \<^verbatim>\<open>send\<close> resolves with \<open>res\<close> the callback builds its
  record and prints it, or throws the error of the serialisation. The result is
  \<open>Inl\<close> the value thrown (the promise of the callback rejects with it) or
  \<open>Inr\<close> the record printed (the promise is fulfilled with \<^verbatim>\<open>undefined\<close>).
\<close>

definition callback :: "jsval list list \<Rightarrow> nat \<Rightarrow> jsval + jsval \<Rightarrow> jsval + jsval" where
  "callback processedItemBatches i out =
     (case out of
        Inl e \<Rightarrow> Inl e
      | Inr res \<Rightarrow>
          console_log_JSON
            (complete_log i (length processedItemBatches) res (processedItemBatches ! i)))"

text \<open>
  One settlement. A promise settles once, and only a \<^verbatim>\<open>send\<close> that was made can
  settle: any other entry of a schedule is void. The callback of the batch runs on.
  When it has printed its record its promise is fulfilled; \<^verbatim>\<open>Promise.all\<close>
  resolves when that was the last pending callback, and the call returns. When the
  callback throws, its promise is rejected; \<^verbatim>\<open>Promise.all\<close> rejects with the
  first such error, which goes through the handler to the caller, and ignores the later
  ones.
\<close>

definition settle ::
    "module \<Rightarrow> jsval \<Rightarrow> jsval list \<Rightarrow> jsval list list \<Rightarrow> call_state \<Rightarrow> settlement \<Rightarrow> call_state" where
  "settle m action items processedItemBatches st ev =
     (case ev of (i, out) \<Rightarrow>
        if i < length (batchRequests st) \<and> batchRequests st ! i = Pending
        then (case callback processedItemBatches i out of
                Inr printed \<Rightarrow>
                  let st1 = st \<lparr> console := console st @ [printed],
                                 batchRequests := (batchRequests st)[i := Fulfilled JUndefined] \<rparr>
                  in if returned st1 = Pending
                        \<and> list_all (\<lambda>p. p = Fulfilled JUndefined) (batchRequests st1)
                     then st1 \<lparr> returned := Fulfilled JUndefined \<rparr>
                     else st1
              | Inl e \<Rightarrow>
                  let st1 = st \<lparr> batchRequests := (batchRequests st)[i := Rejected e] \<rparr>
                  in if returned st1 = Pending
                     then (case catch_block m action items e of
                             (printed, thrown) \<Rightarrow>
                               st1 \<lparr> console := console st1 @ printed,
                                      returned := Rejected thrown \<rparr>)
                     else st1)
        else st)"

text \<open>
  The call: the state it has reached when the settlements of \<open>schedule\<close> have
  arrived. An error thrown by \<^verbatim>\<open>splitEvery\<close> goes to the handler like any other.
\<close>

definition batchWriteItem ::
    "module \<Rightarrow> string \<Rightarrow> jsval \<Rightarrow> jsval list \<Rightarrow> settlement list \<Rightarrow> call_state" where
  "batchWriteItem m tableName action items schedule =
     (let processedItems = processItems action items
      in case splitEvery 25 processedItems of
           Inl e \<Rightarrow>
             (case catch_block m action items e of
                (printed, thrown) \<Rightarrow>
                  \<lparr> sent = [], batchRequests = [], console = printed,
                    returned = Rejected thrown \<rparr>)
         | Inr processedItemBatches \<Rightarrow>
             foldl (settle m action items processedItemBatches)
                   (dispatch tableName processedItemBatches) schedule)"

section \<open>Vocabulary of the properties\<close>

text \<open>The batches of a call, as \<^verbatim>\<open>splitEvery(25, processedItems)\<close> computes them.\<close>

abbreviation processedItemBatches :: "jsval \<Rightarrow> jsval list \<Rightarrow> jsval list list" where
  "processedItemBatches action items \<equiv> splitEvery_loop 25 (processItems action items) 0 []"

text \<open>
  A schedule for \<open>n\<close> requests settles each request at most once and no request that
  was not made.
\<close>

definition valid_schedule :: "nat \<Rightarrow> settlement list \<Rightarrow> bool" where
  "valid_schedule n schedule \<longleftrightarrow>
     distinct (map fst schedule) \<and> list_all (\<lambda>ev. fst ev < n) schedule"

text \<open>
  The values with which the callbacks of a schedule reject and the records they print,
  in the order of arrival; a record comes with the index of its batch.
\<close>

fun rejections :: "jsval list list \<Rightarrow> settlement list \<Rightarrow> jsval list" where
  "rejections B [] = []"
| "rejections B ((i, out) # evs) =
     (case callback B i out of
        Inl e \<Rightarrow> e # rejections B evs
      | Inr printed \<Rightarrow> rejections B evs)"


section \<open>Properties of convertErrorObject\<close>

lemma js_get_truthy_obj: "truthy (js_get v k) \<Longrightarrow> truthy v"
  by (cases v) simp_all

text \<open>
  Claim C8. For every error value given to \<open>convertErrorObject\<close>: when its
  \<^verbatim>\<open>name\<close>, \<^verbatim>\<open>stack\<close> and \<^verbatim>\<open>message\<close> properties are all truthy, the
  logger projection is exactly the object \<^verbatim>\<open>{name, message, stack}\<close> and the
  response projection is exactly \<^verbatim>\<open>{name, message}\<close>, which has no
  \<^verbatim>\<open>stack\<close> property; when one of the three is absent or falsy, both projections
  are the value that was given, unchanged.
\<close>

theorem convertErrorObject_projections:
  "(truthy (js_get e ''name'') \<and> truthy (js_get e ''stack'') \<and> truthy (js_get e ''message'')
      \<longrightarrow> logger (convertErrorObject e) =
            JObj [(''name'', js_get e ''name''), (''message'', js_get e ''message''),
                  (''stack'', js_get e ''stack'')]
        \<and> response (convertErrorObject e) =
            JObj [(''name'', js_get e ''name''), (''message'', js_get e ''message'')]
        \<and> js_get (response (convertErrorObject e)) ''stack'' = JUndefined)
   \<and> (\<not> (truthy (js_get e ''name'') \<and> truthy (js_get e ''stack'') \<and> truthy (js_get e ''message''))
      \<longrightarrow> logger (convertErrorObject e) = e \<and> response (convertErrorObject e) = e)"
  using js_get_truthy_obj [of e "''name''"]
  by (auto simp: convertErrorObject_def js_or_def)

theorem convertErrorObject_projections_witness:
  "logger (convertErrorObject
      (JObj [(''name'', JStr ''TypeError''), (''message'', JStr ''boom''),
             (''stack'', JStr ''TypeError: boom at f''), (''code'', JNum 7)])) =
     JObj [(''name'', JStr ''TypeError''), (''message'', JStr ''boom''),
           (''stack'', JStr ''TypeError: boom at f'')]
   \<and> response (convertErrorObject
      (JObj [(''name'', JStr ''TypeError''), (''message'', JStr ''boom''),
             (''stack'', JStr ''TypeError: boom at f''), (''code'', JNum 7)])) =
     JObj [(''name'', JStr ''TypeError''), (''message'', JStr ''boom'')]
   \<and> logger (convertErrorObject (JObj [(''name'', JStr ''E''), (''message'', JStr [])])) =
     JObj [(''name'', JStr ''E''), (''message'', JStr [])]
   \<and> response (convertErrorObject (JStr ''timeout'')) = JStr ''timeout''"
  using convertErrorObject_projections
          [of "JObj [(''name'', JStr ''TypeError''), (''message'', JStr ''boom''),
                     (''stack'', JStr ''TypeError: boom at f''), (''code'', JNum 7)]"]
        convertErrorObject_projections
          [of "JObj [(''name'', JStr ''E''), (''message'', JStr [])]"]
        convertErrorObject_projections [of "JStr ''timeout''"]
  by simp

section \<open>Lemmas on the batches\<close>

lemma foldl_push: "foldl (\<lambda>ps item. ps @ [f item]) acc items = acc @ map f items"
  by (induction items arbitrary: acc) simp_all

lemma processItems_map:
  "processItems action items =
     map (\<lambda>item. if action = JStr ''put'' then put_request item else delete_request item) items"
  by (simp add: processItems_def foldl_push)

lemma splitEvery_loop_concat:
  "0 < n \<Longrightarrow> concat (splitEvery_loop n xs idx res) = concat res @ drop idx xs"
proof (induction n xs idx res rule: splitEvery_loop.induct)
  case (1 n list idx result)
  show ?case
  proof (cases "idx < length list")
    case True
    have "take n (drop idx list) @ drop (idx + n) list = drop idx list"
      by (metis add.commute append_take_drop_id drop_drop)
    with 1 True show ?thesis
      by (subst splitEvery_loop.simps) (simp add: slice_def)
  next
    case False
    then show ?thesis by (subst splitEvery_loop.simps) simp
  qed
qed

lemma div_step:
  assumes "0 < n" and "0 < (d::nat)"
  shows "(d + n - 1) div n = Suc ((d - n + n - 1) div n)"
proof (cases "n \<le> d")
  case True
  have eq: "d + n - 1 = (d - n + n - 1) + n"
    using True assms by linarith
  have "((d - n + n - 1) + n) div n = Suc ((d - n + n - 1) div n)"
    using assms(1) by (simp only: div_add_self2 [OF less_imp_neq [THEN not_sym]] Suc_eq_plus1)
  with eq show ?thesis by (simp only:)
next
  case False
  then have "d - n = 0" and "n \<le> d + n - 1" and "d + n - 1 < 2 * n"
    using assms by simp_all
  then have "(d + n - 1) div n = 1" and "(d - n + n - 1) div n = 0"
    using assms(1) by (simp_all add: div_nat_eqI)
  then show ?thesis by (simp only: One_nat_def)
qed

lemma splitEvery_loop_closed:
  "0 < n \<Longrightarrow> splitEvery_loop n xs idx res =
     res @ map (\<lambda>k. take n (drop (idx + k * n) xs)) [0..<(length xs - idx + n - 1) div n]"
proof (induction n xs idx res rule: splitEvery_loop.induct)
  case (1 n list idx result)
  let ?m = "(length list - idx + n - 1) div n"
  show ?case
  proof (cases "idx < length list")
    case True
    then have m: "?m = Suc ((length list - (idx + n) + n - 1) div n)"
      using div_step [of n "length list - idx"] 1(2) by simp
    have "splitEvery_loop n list idx result =
          splitEvery_loop n list (idx + n) (result @ [slice idx (idx + n) list])"
      using True 1(2) by (subst splitEvery_loop.simps) simp
    also have "\<dots> = (result @ [slice idx (idx + n) list]) @
        map (\<lambda>k. take n (drop (idx + n + k * n) list)) [0..<(length list - (idx + n) + n - 1) div n]"
      using 1 True by simp
    also have "\<dots> = result @ map (\<lambda>k. take n (drop (idx + k * n) list)) [0..<?m]"
      unfolding m by (simp add: slice_def upt_rec [of 0 "Suc _"] map_Suc_upt [symmetric] add.assoc  del: upt_Suc)
    finally show ?thesis .
  next
    case False
    then have "?m = 0" using 1(2) by simp
    with False show ?thesis by (subst splitEvery_loop.simps) simp
  qed
qed

lemma ceil25: "\<lceil>real L / 25\<rceil> = int ((L + 24) div 25)"
proof -
  have "\<lceil>real L / 25\<rceil> = \<lceil>of_int (int L) / of_int 25 :: real\<rceil>" by simp
  also have "\<dots> = - (- int L div 25)" by (rule ceiling_divide_eq_div)
  also have "\<dots> = int ((L + 24) div 25)" by (simp add: zdiv_int) 
  finally show ?thesis .
qed

section \<open>Lemmas on the run of a call\<close>

lemma callback_Inr_iff:
  "callback B i out = Inr r \<longleftrightarrow>
     (\<exists>res. out = Inr res \<and> \<not> has_bigint (complete_log i (length B) res (B ! i))
            \<and> r = complete_log i (length B) res (B ! i))"
  by (auto simp: callback_def console_log_JSON_def split: sum.splits)

lemma callback_Inl_iff:
  "callback B i out = Inl e \<longleftrightarrow>
     out = Inl e
     \<or> (\<exists>res. out = Inr res \<and> has_bigint (complete_log i (length B) res (B ! i))
              \<and> e = stringify_error)"
  by (auto simp: callback_def console_log_JSON_def split: sum.splits)

lemma catch_block_JS: "catch_block JS a its e = ([], e)"
  by (simp add: catch_block_def)

lemma catch_block_TS:
  "catch_block TS a its e =
     (if has_bigint (fail_log a its e) then ([], stringify_error) else ([fail_log a its e], e))"
  by (simp add: catch_block_def console_log_JSON_def)

lemma settle_sent [simp]: "sent (settle m a its B st ev) = sent st"
  by (cases ev) (simp add: settle_def Let_def split: sum.splits prod.splits)

lemma settle_batchRequests:
  "batchRequests (settle m a its B st (j, out)) =
     (if j < length (batchRequests st) \<and> batchRequests st ! j = Pending
      then (batchRequests st)
             [j := (case callback B j out of
                      Inr r \<Rightarrow> Fulfilled JUndefined | Inl e \<Rightarrow> Rejected e)]
      else batchRequests st)"
  by (simp add: settle_def Let_def split: sum.splits prod.splits)

lemma settle_returned:
  "returned (settle m a its B st (j, out)) =
     (if j < length (batchRequests st) \<and> batchRequests st ! j = Pending \<and> returned st = Pending
      then (case callback B j out of
              Inr r \<Rightarrow>
                if list_all (\<lambda>p. p = Fulfilled JUndefined)
                     ((batchRequests st)[j := Fulfilled JUndefined])
                then Fulfilled JUndefined else Pending
            | Inl e \<Rightarrow> Rejected (snd (catch_block m a its e)))
      else returned st)"
  by (simp add: settle_def Let_def split: sum.splits prod.splits)

lemma settle_console:
  "console (settle m a its B st (j, out)) =
     (if j < length (batchRequests st) \<and> batchRequests st ! j = Pending
      then (case callback B j out of
              Inr r \<Rightarrow> console st @ [r]
            | Inl e \<Rightarrow> if returned st = Pending
                       then console st @ fst (catch_block m a its e) else console st)
      else console st)"
  by (simp add: settle_def Let_def split: sum.splits prod.splits)

lemma valid_schedule_snoc:
  "valid_schedule n (evs @ [(j, out)]) \<longleftrightarrow> valid_schedule n evs \<and> j < n \<and> j \<notin> fst ` set evs"
  by (auto simp: valid_schedule_def)

lemma run_sent: "sent (foldl (settle m a its B) st evs) = sent st"
  by (induction evs arbitrary: st) simp_all

lemma run_batchRequests:
  "valid_schedule (length B) evs \<Longrightarrow>
   batchRequests (foldl (settle m a its B) (dispatch t B) evs) =
     map (\<lambda>i. case map_of evs i of
                None \<Rightarrow> Pending
              | Some out \<Rightarrow> (case callback B i out of
                               Inl e \<Rightarrow> Rejected e
                             | Inr r \<Rightarrow> Fulfilled JUndefined)) [0..<length B]"
proof (induction evs rule: rev_induct)
  case Nil
  show ?case by (auto intro: nth_equalityI simp: dispatch_def)
next
  case (snoc ev evs)
  obtain j out where ev: "ev = (j, out)" by (cases ev)
  from snoc.prems ev have v: "valid_schedule (length B) evs" and j: "j < length B"
    and fresh: "j \<notin> fst ` set evs"
    by (simp_all add: valid_schedule_snoc)
  from fresh have none: "map_of evs j = None" by (simp add: map_of_eq_None_iff)
  note IH = snoc.IH [OF v]
  show ?case
    unfolding ev foldl_append foldl_Cons foldl_Nil settle_batchRequests IH
    using j none
    by (auto intro!: nth_equalityI simp: nth_list_update map_add_def split: sum.splits option.splits)
qed

lemma rejections_append: "rejections B (xs @ ys) = rejections B xs @ rejections B ys"
  by (induction xs rule: rejections.induct) (simp_all split: sum.splits)


lemma rejections_set:
  "e \<in> set (rejections B evs) \<longleftrightarrow> (\<exists>i out. (i, out) \<in> set evs \<and> callback B i out = Inl e)"
  by (induction evs rule: rejections.induct) (auto split: sum.splits)


lemma run_returned:
  "valid_schedule (length B) evs \<Longrightarrow>
   returned (foldl (settle m a its B) (dispatch t B) evs) =
     (case rejections B evs of
        e # es \<Rightarrow> Rejected (snd (catch_block m a its e))
      | [] \<Rightarrow> if list_all (\<lambda>p. p = Fulfilled JUndefined)
                     (batchRequests (foldl (settle m a its B) (dispatch t B) evs))
              then Fulfilled JUndefined else Pending)"
proof (induction evs rule: rev_induct)
  case Nil
  show ?case by (cases B) (simp_all add: dispatch_def)
next
  case (snoc ev evs)
  obtain j out where ev: "ev = (j, out)" by (cases ev)
  from snoc.prems ev have v: "valid_schedule (length B) evs" and j: "j < length B"
    and fresh: "j \<notin> fst ` set evs"
    by (simp_all add: valid_schedule_snoc)
  from fresh have none: "map_of evs j = None" by (simp add: map_of_eq_None_iff)
  let ?st = "foldl (settle m a its B) (dispatch t B) evs"
  have len: "length (batchRequests ?st) = length B"
    by (simp add: run_batchRequests [OF v])
  have pend: "batchRequests ?st ! j = Pending"
    using j none by (simp add: run_batchRequests [OF v])
  then have notall: "\<not> list_all (\<lambda>p. p = Fulfilled JUndefined) (batchRequests ?st)"
    using j len by (auto simp: list_all_length)
  note IH = snoc.IH [OF v]
  show ?case
  proof (cases "callback B j out")
    case (Inl e)
    then show ?thesis
      using IH notall j len pend
      by (simp add: ev settle_returned settle_batchRequests rejections_append split: list.splits)
  next
    case (Inr r)
    then show ?thesis
      using IH notall j len pend
      by (simp add: ev settle_returned settle_batchRequests rejections_append split: list.splits)
  qed
qed

lemma all_fulfilled_iff:
  assumes "valid_schedule (length B) evs"
  shows "list_all (\<lambda>p. p = Fulfilled JUndefined)
           (batchRequests (foldl (settle m a its B) (dispatch t B) evs))
         \<longleftrightarrow> (\<forall>i<length B. \<exists>res. (i, Inr res) \<in> set evs
                   \<and> \<not> has_bigint (complete_log i (length B) res (B ! i)))"
proof -
  from assms have d: "distinct (map fst evs)" by (simp add: valid_schedule_def)
  have key: "(case map_of evs i of None \<Rightarrow> Pending
                | Some out \<Rightarrow> (case callback B i out of Inl e \<Rightarrow> Rejected e
                                | Inr r \<Rightarrow> Fulfilled JUndefined)) = Fulfilled JUndefined
             \<longleftrightarrow> (\<exists>res. (i, Inr res) \<in> set evs
                    \<and> \<not> has_bigint (complete_log i (length B) res (B ! i)))" for i
  proof -
    have "(\<exists>res. (i, Inr res) \<in> set evs \<and> \<not> has_bigint (complete_log i (length B) res (B ! i)))
          \<longleftrightarrow> (\<exists>res. map_of evs i = Some (Inr res)
                 \<and> \<not> has_bigint (complete_log i (length B) res (B ! i)))"
      using d by simp
    then show ?thesis
      by (auto simp: callback_def console_log_JSON_def split: option.splits sum.splits)
  qed
  show ?thesis
    unfolding run_batchRequests [OF assms] list_all_iff
    by (auto simp: key)
qed

lemma message_complete_log [simp]:
  "js_get (complete_log i n res b) ''message'' = JStr ''Complete batchWrite''"
  by (simp add: complete_log_def)

lemma message_fail_log [simp]:
  "js_get (fail_log a its e) ''message'' = JStr ''Fail to batchWriteItem''"
  by (simp add: fail_log_def)

lemma message_catch_block:
  "r \<in> set (fst (catch_block m a its e)) \<Longrightarrow> r = fail_log a its e"
  by (cases m) (auto simp: catch_block_TS catch_block_JS split: if_splits)


lemma run_console_fail:
  "valid_schedule (length B) evs \<Longrightarrow>
   filter (\<lambda>r. js_get r ''message'' = JStr ''Fail to batchWriteItem'')
      (console (foldl (settle m a its B) (dispatch t B) evs)) =
     (case rejections B evs of [] \<Rightarrow> [] | e # es \<Rightarrow> fst (catch_block m a its e))"
proof (induction evs rule: rev_induct)
  case Nil
  show ?case by (simp add: dispatch_def)
next
  case (snoc ev evs)
  obtain j out where ev: "ev = (j, out)" by (cases ev)
  from snoc.prems ev have v: "valid_schedule (length B) evs" and j: "j < length B"
    and fresh: "j \<notin> fst ` set evs"
    by (simp_all add: valid_schedule_snoc)
  from fresh have none: "map_of evs j = None" by (simp add: map_of_eq_None_iff)
  let ?st = "foldl (settle m a its B) (dispatch t B) evs"
  have len: "length (batchRequests ?st) = length B"
    by (simp add: run_batchRequests [OF v])
  have pend: "batchRequests ?st ! j = Pending"
    using j none by (simp add: run_batchRequests [OF v])
  then have notall: "\<not> list_all (\<lambda>p. p = Fulfilled JUndefined) (batchRequests ?st)"
    using j len by (auto simp: list_all_length)
  have allfail: "filter (\<lambda>r. js_get r ''message'' = JStr ''Fail to batchWriteItem'')
      (fst (catch_block m a its e)) = fst (catch_block m a its e)" for e
    by (auto simp: filter_id_conv dest!: message_catch_block)
  show ?case
  proof (cases "callback B j out")
    case (Inl e)
    then show ?thesis
      using snoc.IH [OF v] j len pend notall run_returned [OF v, of m a its t]
      by (simp add: ev settle_console rejections_append allfail split: list.splits)
  next
    case (Inr r)
    then have "r = complete_log j (length B) (projr out) (B ! j)"
      by (auto simp: callback_Inr_iff)
    with Inr show ?thesis
      using snoc.IH [OF v] j len pend
      by (simp add: ev settle_console rejections_append)
  qed
qed

section \<open>The batches and the requests of a call\<close>

lemma length_processItems: "length (processItems a its) = length its"
  by (simp add: processItems_map)

lemma batches_closed:
  "processedItemBatches a its =
     map (\<lambda>k. take 25 (drop (k * 25) (processItems a its))) [0..<(length its + 24) div 25]"
  using splitEvery_loop_closed [of 25 "processItems a its" 0 "[]"]
  by (simp add: length_processItems add.commute)

lemma length_batches: "length (processedItemBatches a its) = (length its + 24) div 25"
  by (simp add: batches_closed)

lemma nth_batches:
  "k < (length its + 24) div 25 \<Longrightarrow>
   processedItemBatches a its ! k = take 25 (drop (k * 25) (processItems a its))"
  by (simp add: batches_closed)

lemma concat_batches: "concat (processedItemBatches a its) = processItems a its"
  using splitEvery_loop_concat [of 25 "processItems a its" 0 "[]"] by simp

lemma batchWriteItem_run:
  "batchWriteItem m t a its evs =
     foldl (settle m a its (processedItemBatches a its))
           (dispatch t (processedItemBatches a its)) evs"
  by (simp add: batchWriteItem_def splitEvery_def Let_def)

lemma batchWriteItem_sent:
  "sent (batchWriteItem m t a its evs) = map (BatchWriteCommand t) (processedItemBatches a its)"
  by (simp add: batchWriteItem_run run_sent dispatch_def)

text \<open>
  Claim C1. For every table name, action and list of \<open>L\<close> items, the commands that
  \<open>batchWriteItem\<close> sends carry the batches of the mapped write operations, one
  command per batch and in order; there are exactly \<open>\<lceil>L / 25\<rceil>\<close> batches; the
  \<open>k\<close>-th batch is the contiguous run of (at most) 25 operations that starts at
  position \<open>25 * k\<close>; every batch but possibly the last has exactly 25 operations and
  none has more; the batches hold \<open>L\<close> operations in all; and their concatenation
  is the list of the operations of the items, in the order of the input.
\<close>

theorem batchWriteItem_partition:
  "sent (batchWriteItem m tableName action items schedule) =
     map (BatchWriteCommand tableName) (processedItemBatches action items)
   \<and> int (length (processedItemBatches action items)) = \<lceil>real (length items) / 25\<rceil>
   \<and> (\<forall>k < length (processedItemBatches action items).
         processedItemBatches action items ! k =
           take 25 (drop (25 * k) (processItems action items)))
   \<and> (\<forall>k. Suc k < length (processedItemBatches action items) \<longrightarrow>
         length (processedItemBatches action items ! k) = 25)
   \<and> (\<forall>b \<in> set (processedItemBatches action items). length b \<le> 25)
   \<and> sum_list (map length (processedItemBatches action items)) = length items
   \<and> concat (processedItemBatches action items) =
       map (\<lambda>item. if action = JStr ''put'' then put_request item else delete_request item) items"
proof (intro conjI allI impI ballI)
  show "sent (batchWriteItem m tableName action items schedule) =
     map (BatchWriteCommand tableName) (processedItemBatches action items)"
    by (rule batchWriteItem_sent)
  show "int (length (processedItemBatches action items)) = \<lceil>real (length items) / 25\<rceil>"
    by (simp only: length_batches ceil25)
  show "processedItemBatches action items ! k = take 25 (drop (25 * k) (processItems action items))"
    if "k < length (processedItemBatches action items)" for k
    using that by (simp add: length_batches nth_batches mult.commute)
  show "length (processedItemBatches action items ! k) = 25"
    if "Suc k < length (processedItemBatches action items)" for k
  proof -
    from that have k: "Suc k < (length items + 24) div 25" by (simp only: length_batches)
    then have "Suc (Suc k) \<le> (length items + 24) div 25" by simp
    then have "Suc (Suc k) * 25 \<le> length items + 24"
      by (simp only: less_eq_div_iff_mult_less_eq [of 25, simplified])
    then have "25 * Suc k < length items" by simp
    with k show ?thesis by (simp add: nth_batches length_processItems)
  qed
  show "length b \<le> 25" if "b \<in> set (processedItemBatches action items)" for b
    using that by (auto simp: batches_closed)
  show "sum_list (map length (processedItemBatches action items)) = length items"
    using concat_batches [of action items]
    by (metis length_concat length_processItems)
  show "concat (processedItemBatches action items) =
       map (\<lambda>item. if action = JStr ''put'' then put_request item else delete_request item) items"
    unfolding concat_batches by (rule processItems_map)
qed


lemma list2_nth: "length xs = 2 \<Longrightarrow> xs = [xs ! 0, xs ! 1]"
  by (auto intro!: nth_equalityI simp: less_2_cases_iff)

theorem batchWriteItem_partition_witness:
  "processedItemBatches (JStr ''put'')
      (replicate 25 (JObj [(''id'', JStr ''a'')]) @ [JObj [(''id'', JStr ''b'')], JObj [(''id'', JStr ''c'')]]) =
     [replicate 25 (put_request (JObj [(''id'', JStr ''a'')])),
      [put_request (JObj [(''id'', JStr ''b'')]), put_request (JObj [(''id'', JStr ''c'')])]]
   \<and> sent (batchWriteItem JS ''tbl'' (JStr ''put'')
      (replicate 25 (JObj [(''id'', JStr ''a'')]) @ [JObj [(''id'', JStr ''b'')], JObj [(''id'', JStr ''c'')]]) []) =
     map (BatchWriteCommand ''tbl'')
       (processedItemBatches (JStr ''put'')
         (replicate 25 (JObj [(''id'', JStr ''a'')]) @ [JObj [(''id'', JStr ''b'')], JObj [(''id'', JStr ''c'')]]))"
proof -
  let ?items = "replicate 25 (JObj [(''id'', JStr ''a'')]) @ [JObj [(''id'', JStr ''b'')], JObj [(''id'', JStr ''c'')]]"
  let ?B = "processedItemBatches (JStr ''put'') ?items"
  note P = batchWriteItem_partition [of JS "''tbl''" "JStr ''put''" ?items "[]"]
  have ops: "processItems (JStr ''put'') ?items =
      replicate 25 (put_request (JObj [(''id'', JStr ''a'')])) @
      [put_request (JObj [(''id'', JStr ''b'')]), put_request (JObj [(''id'', JStr ''c'')])]"
    by (simp add: processItems_map)
  from P have "int (length ?B) = \<lceil>real (length ?items) / 25\<rceil>" by blast
  then have len: "length ?B = 2" by simp
  from P have nth: "\<forall>k < length ?B. ?B ! k = take 25 (drop (25 * k) (processItems (JStr ''put'') ?items))"
    by blast
  have "?B ! 0 = replicate 25 (put_request (JObj [(''id'', JStr ''a'')]))"
    using nth len by (simp add: ops)
  moreover have "?B ! 1 = [put_request (JObj [(''id'', JStr ''b'')]), put_request (JObj [(''id'', JStr ''c'')])]"
    using nth len by (simp add: ops)
  ultimately have "?B = [replicate 25 (put_request (JObj [(''id'', JStr ''a'')])),
      [put_request (JObj [(''id'', JStr ''b'')]), put_request (JObj [(''id'', JStr ''c'')])]]"
    using list2_nth [OF len] by simp
  moreover from P have "sent (batchWriteItem JS ''tbl'' (JStr ''put'') ?items []) =
     map (BatchWriteCommand ''tbl'') ?B" by blast
  ultimately show ?thesis by blast
qed

text \<open>
  Claim C3. With the action \<^verbatim>\<open>"delete"\<close> every write operation of the batches is
  \<^verbatim>\<open>{ DeleteRequest: { Key: item } }\<close> for an item of the input and has no
  \<^verbatim>\<open>PutRequest\<close> property; with the action \<^verbatim>\<open>"put"\<close> every operation is
  \<^verbatim>\<open>{ PutRequest: { Item: item } }\<close>. The batches are what the call sends.
\<close>

theorem batchWriteItem_write_shapes:
  "(action = JStr ''delete'' \<longrightarrow>
      concat (processedItemBatches action items) =
        map (\<lambda>item. JObj [(''DeleteRequest'', JObj [(''Key'', item)])]) items
      \<and> (\<forall>w \<in> set (concat (processedItemBatches action items)).
            js_get w ''PutRequest'' = JUndefined
            \<and> (\<exists>item \<in> set items. js_get w ''DeleteRequest'' = JObj [(''Key'', item)])))
   \<and> (action = JStr ''put'' \<longrightarrow>
      concat (processedItemBatches action items) =
        map (\<lambda>item. JObj [(''PutRequest'', JObj [(''Item'', item)])]) items
      \<and> (\<forall>w \<in> set (concat (processedItemBatches action items)).
            js_get w ''DeleteRequest'' = JUndefined
            \<and> (\<exists>item \<in> set items. js_get w ''PutRequest'' = JObj [(''Item'', item)])))
   \<and> sent (batchWriteItem m tableName action items schedule) =
        map (BatchWriteCommand tableName) (processedItemBatches action items)"
proof -
  have c: "concat (processedItemBatches action items) =
      map (\<lambda>item. if action = JStr ''put'' then put_request item else delete_request item) items"
    unfolding concat_batches by (rule processItems_map)
  show ?thesis
    unfolding c batchWriteItem_sent
    by (auto simp: put_request_def delete_request_def)
qed

theorem batchWriteItem_write_shapes_witness:
  "concat (processedItemBatches (JStr ''delete'') [JObj [(''pk'', JStr ''k1'')], JObj [(''pk'', JStr ''k2'')]]) =
     [JObj [(''DeleteRequest'', JObj [(''Key'', JObj [(''pk'', JStr ''k1'')])])],
      JObj [(''DeleteRequest'', JObj [(''Key'', JObj [(''pk'', JStr ''k2'')])])]]
   \<and> concat (processedItemBatches (JStr ''put'') [JObj [(''pk'', JStr ''k1''), (''v'', JNum 1)]]) =
     [JObj [(''PutRequest'', JObj [(''Item'', JObj [(''pk'', JStr ''k1''), (''v'', JNum 1)])])]]"
  using batchWriteItem_write_shapes
          [of "JStr ''delete''" "[JObj [(''pk'', JStr ''k1'')], JObj [(''pk'', JStr ''k2'')]]" TS "''tbl''" "[]"]
        batchWriteItem_write_shapes
          [of "JStr ''put''" "[JObj [(''pk'', JStr ''k1''), (''v'', JNum 1)]]" TS "''tbl''" "[]"]
  by simp

lemma settle_void:
  "batchRequests st = [] \<Longrightarrow> settle m a its B st ev = st"
  by (cases ev) (simp add: settle_def)

lemma run_void: "batchRequests st = [] \<Longrightarrow> foldl (settle m a its B) st evs = st"
  by (induction evs) (simp_all add: settle_void)

lemma processItems_Nil: "processItems a [] = []"
  by (simp add: processItems_def)

lemma splitEvery_loop_Nil: "splitEvery_loop n [] 0 [] = []"
  by (subst splitEvery_loop.simps) simp

text \<open>
  Claim C4. For the empty list of items the call sends no command, writes no record
  and has returned (its promise is fulfilled) without waiting for any settlement;
  whatever a schedule holds is void.
\<close>

theorem batchWriteItem_empty:
  "batchWriteItem m tableName action [] schedule =
     \<lparr> sent = [], batchRequests = [], console = [], returned = Fulfilled JUndefined \<rparr>"
  by (simp add: batchWriteItem_run processItems_Nil splitEvery_loop_Nil dispatch_def run_void)

theorem batchWriteItem_empty_witness:
  "sent (batchWriteItem TS ''tbl'' (JStr ''put'') [] []) = []
   \<and> console (batchWriteItem TS ''tbl'' (JStr ''put'') [] []) = []
   \<and> returned (batchWriteItem TS ''tbl'' (JStr ''put'') [] []) = Fulfilled JUndefined
   \<and> returned (batchWriteItem JS ''tbl'' (JStr ''delete'') [] [(0, Inl (JStr ''late''))]) = Fulfilled JUndefined"
  by (simp add: batchWriteItem_empty)

text \<open>
  Claim C5. A list of exactly 25 items gives one batch, of all 25 operations, and one
  command; a list of 26 items gives two batches, of 25 operations and of 1 operation in
  that order, and two commands.
\<close>

theorem batchWriteItem_boundary:
  "(length items = 25 \<longrightarrow>
      processedItemBatches action items = [processItems action items]
      \<and> map length (processedItemBatches action items) = [25]
      \<and> sent (batchWriteItem m tableName action items schedule) =
          [BatchWriteCommand tableName (processItems action items)])
   \<and> (length items = 26 \<longrightarrow>
      processedItemBatches action items =
        [take 25 (processItems action items), drop 25 (processItems action items)]
      \<and> map length (processedItemBatches action items) = [25, 1]
      \<and> sent (batchWriteItem m tableName action items schedule) =
          [BatchWriteCommand tableName (take 25 (processItems action items)),
           BatchWriteCommand tableName (drop 25 (processItems action items))])"
proof (intro conjI impI)
  assume L: "length items = 25"
  then show B: "processedItemBatches action items = [processItems action items]"
    by (simp add: batches_closed length_processItems)
  show "map length (processedItemBatches action items) = [25]"
    by (simp only: B) (simp add: length_processItems L)
  show "sent (batchWriteItem m tableName action items schedule) =
          [BatchWriteCommand tableName (processItems action items)]"
    by (simp only: batchWriteItem_sent B) simp
next
  assume L: "length items = 26"
  have u: "[0..<2] = [0, Suc 0]" by (simp add: upt_rec)
  from L show B: "processedItemBatches action items =
        [take 25 (processItems action items), drop 25 (processItems action items)]"
    by (simp add: batches_closed length_processItems u)
  show "map length (processedItemBatches action items) = [25, 1]"
    by (simp only: B) (simp add: length_processItems L)
  show "sent (batchWriteItem m tableName action items schedule) =
          [BatchWriteCommand tableName (take 25 (processItems action items)),
           BatchWriteCommand tableName (drop 25 (processItems action items))]"
    by (simp only: batchWriteItem_sent B) simp
qed

theorem batchWriteItem_boundary_witness:
  "map length (processedItemBatches (JStr ''put'') (replicate 25 (JObj [(''id'', JStr ''a'')]))) = [25]
   \<and> map length (processedItemBatches (JStr ''delete'') (replicate 26 (JObj [(''id'', JStr ''a'')]))) = [25, 1]
   \<and> length (sent (batchWriteItem TS ''tbl'' (JStr ''put'') (replicate 25 (JObj [(''id'', JStr ''a'')])) [])) = 1
   \<and> length (sent (batchWriteItem TS ''tbl'' (JStr ''delete'') (replicate 26 (JObj [(''id'', JStr ''a'')])) [])) = 2"
proof -
  let ?x = "JObj [(''id'', JStr ''a'')]"
  have l25: "length (replicate 25 ?x) = 25" and l26: "length (replicate 26 ?x) = 26"
    by simp_all
  note A = batchWriteItem_boundary [of "replicate 25 ?x" "JStr ''put''" TS "''tbl''" "[]"]
  note B = batchWriteItem_boundary [of "replicate 26 ?x" "JStr ''delete''" TS "''tbl''" "[]"]
  from A l25 have a1: "map length (processedItemBatches (JStr ''put'') (replicate 25 ?x)) = [25]"
    by blast
  from A l25 have "sent (batchWriteItem TS ''tbl'' (JStr ''put'') (replicate 25 ?x) []) =
      [BatchWriteCommand ''tbl'' (processItems (JStr ''put'') (replicate 25 ?x))]"
    by blast
  then have a2: "length (sent (batchWriteItem TS ''tbl'' (JStr ''put'') (replicate 25 ?x) [])) = 1"
    by simp
  from B l26 have b1: "map length (processedItemBatches (JStr ''delete'') (replicate 26 ?x)) = [25, 1]"
    by blast
  from B l26 have "sent (batchWriteItem TS ''tbl'' (JStr ''delete'') (replicate 26 ?x) []) =
      [BatchWriteCommand ''tbl'' (take 25 (processItems (JStr ''delete'') (replicate 26 ?x))),
       BatchWriteCommand ''tbl'' (drop 25 (processItems (JStr ''delete'') (replicate 26 ?x)))]"
    by blast
  then have b2: "length (sent (batchWriteItem TS ''tbl'' (JStr ''delete'') (replicate 26 ?x) [])) = 2"
    by simp
  from a1 b1 a2 b2 show ?thesis by blast
qed

lemma valid_schedule_key:
  "valid_schedule n evs \<Longrightarrow> (i, x) \<in> set evs \<Longrightarrow> (i, y) \<in> set evs \<Longrightarrow> x = y"
  unfolding valid_schedule_def by (metis map_of_eq_Some_iff option.inject)

lemma valid_schedule_bound: "valid_schedule n evs \<Longrightarrow> (i, x) \<in> set evs \<Longrightarrow> i < n"
  unfolding valid_schedule_def list_all_iff by fastforce

lemma valid_schedule_take: "valid_schedule n evs \<Longrightarrow> valid_schedule n (take k evs)"
  unfolding valid_schedule_def list_all_iff
  by (auto simp: take_map [symmetric] dest: in_set_takeD)

lemma snd_catch_block:
  "m = JS \<or> \<not> has_bigint (fail_log a its e) \<Longrightarrow> snd (catch_block m a its e) = e"
  by (cases m) (auto simp: catch_block_TS catch_block_JS)

lemma batchWriteItem_returned:
  assumes "valid_schedule (length (processedItemBatches a its)) evs"
  shows "returned (batchWriteItem m t a its evs) =
      (case rejections (processedItemBatches a its) evs of
         e # es \<Rightarrow> Rejected (snd (catch_block m a its e))
       | [] \<Rightarrow> if (\<forall>i<length (processedItemBatches a its). \<exists>res. (i, Inr res) \<in> set evs
                     \<and> \<not> has_bigint (complete_log i (length (processedItemBatches a its)) res
                                        (processedItemBatches a its ! i)))
               then Fulfilled JUndefined else Pending)"
  unfolding batchWriteItem_run
  by (simp only: run_returned [OF assms] all_fulfilled_iff [OF assms])

lemma rejections_request:
  "(i, Inl e) \<in> set evs \<Longrightarrow> e \<in> set (rejections B evs)"
proof -
  assume "(i, Inl e) \<in> set evs"
  moreover have "callback B i (Inl e) = Inl e" by (simp add: callback_def)
  ultimately show ?thesis unfolding rejections_set by blast
qed

text \<open>
  Claim C2, as the code has it. For every call and every schedule of its requests:
  the call returns (its promise is fulfilled) only when every request that was sent has
  completed with a response, and it does return once all of them have, provided every
  record can be serialised; when a request fails the call rejects; it rejects with the
  first value with which a callback of a batch rejects, provided the handler of the
  TypeScript module can serialise its failure record (the CommonJS module has no
  handler); in particular, when exactly one request fails, every other settlement is a
  response and every record can be serialised, the call rejects with the error of that
  request. No request is sent again: whatever the schedule, the commands sent are the
  batches, one command each.
\<close>

theorem batchWriteItem_join:
  "valid_schedule (length (processedItemBatches action items)) schedule \<Longrightarrow>
   (\<forall>v. returned (batchWriteItem m tableName action items schedule) = Fulfilled v \<longrightarrow>
        (\<forall>i < length (processedItemBatches action items). \<exists>res. (i, Inr res) \<in> set schedule))
   \<and> ((\<forall>i < length (processedItemBatches action items).
          \<exists>res. (i, Inr res) \<in> set schedule
              \<and> \<not> has_bigint (complete_log i (length (processedItemBatches action items)) res
                                 (processedItemBatches action items ! i))) \<longrightarrow>
        returned (batchWriteItem m tableName action items schedule) = Fulfilled JUndefined)
   \<and> (\<forall>i e. (i, Inl e) \<in> set schedule \<longrightarrow>
        (\<exists>e'. returned (batchWriteItem m tableName action items schedule) = Rejected e'))
   \<and> (\<forall>e es. rejections (processedItemBatches action items) schedule = e # es
          \<and> (m = JS \<or> \<not> has_bigint (fail_log action items e)) \<longrightarrow>
        returned (batchWriteItem m tableName action items schedule) = Rejected e)
   \<and> (\<forall>i e. (i, Inl e) \<in> set schedule
          \<and> (\<forall>j out. (j, out) \<in> set schedule \<and> j \<noteq> i \<longrightarrow>
                (\<exists>res. out = Inr res
                   \<and> \<not> has_bigint (complete_log j (length (processedItemBatches action items)) res
                                      (processedItemBatches action items ! j))))
          \<and> (m = JS \<or> \<not> has_bigint (fail_log action items e)) \<longrightarrow>
        returned (batchWriteItem m tableName action items schedule) = Rejected e)
   \<and> sent (batchWriteItem m tableName action items schedule) =
        map (BatchWriteCommand tableName) (processedItemBatches action items)"
proof -
  let ?B = "processedItemBatches action items"
  let ?st = "batchWriteItem m tableName action items schedule"
  assume v: "valid_schedule (length ?B) schedule"
  note ret = batchWriteItem_returned [OF v, of m tableName]
  have a: "\<forall>i < length ?B. \<exists>res. (i, Inr res) \<in> set schedule" if "returned ?st = Fulfilled u" for u
    using that unfolding ret by (auto split: list.splits if_splits)
  have b: "returned ?st = Fulfilled JUndefined"
    if all: "\<forall>i < length ?B. \<exists>res. (i, Inr res) \<in> set schedule
               \<and> \<not> has_bigint (complete_log i (length ?B) res (?B ! i))"
  proof -
    have "rejections ?B schedule = []"
    proof (rule ccontr)
      assume "rejections ?B schedule \<noteq> []"
      then obtain e where "e \<in> set (rejections ?B schedule)"
        by (cases "rejections ?B schedule") auto
      then obtain j out where jo: "(j, out) \<in> set schedule" and cb: "callback ?B j out = Inl e"
        unfolding rejections_set by blast
      from jo have "j < length ?B" by (rule valid_schedule_bound [OF v])
      with all obtain res where r: "(j, Inr res) \<in> set schedule"
        and s: "\<not> has_bigint (complete_log j (length ?B) res (?B ! j))" by blast
      from jo r have "out = Inr res" by (rule valid_schedule_key [OF v])
      with cb s show False by (simp add: callback_Inl_iff)
    qed
    with all show ?thesis by (simp add: ret)
  qed
  have c: "\<exists>e'. returned ?st = Rejected e'" if "(i, Inl e) \<in> set schedule" for i e
  proof -
    from that have "e \<in> set (rejections ?B schedule)" by (rule rejections_request)
    then show ?thesis unfolding ret by (cases "rejections ?B schedule") auto
  qed
  have d: "returned ?st = Rejected e"
    if "rejections ?B schedule = e # es" and "m = JS \<or> \<not> has_bigint (fail_log action items e)"
    for e es
    using that by (simp add: ret snd_catch_block)
  have e: "returned ?st = Rejected e"
    if ie: "(i, Inl e) \<in> set schedule"
      and others: "\<forall>j out. (j, out) \<in> set schedule \<and> j \<noteq> i \<longrightarrow>
                (\<exists>res. out = Inr res \<and> \<not> has_bigint (complete_log j (length ?B) res (?B ! j)))"
      and ser: "m = JS \<or> \<not> has_bigint (fail_log action items e)" for i e
  proof -
    from ie have "e \<in> set (rejections ?B schedule)" by (rule rejections_request)
    then obtain x xs where xs: "rejections ?B schedule = x # xs"
      by (cases "rejections ?B schedule") auto
    then have "x \<in> set (rejections ?B schedule)" by simp
    then obtain j out where jo: "(j, out) \<in> set schedule" and cb: "callback ?B j out = Inl x"
      unfolding rejections_set by blast
    have "j = i"
    proof (rule ccontr)
      assume "j \<noteq> i"
      with others jo obtain res where "out = Inr res"
        and "\<not> has_bigint (complete_log j (length ?B) res (?B ! j))" by blast
      with cb show False by (simp add: callback_Inl_iff)
    qed
    with jo ie have "out = Inl e" using valid_schedule_key [OF v] by blast
    with cb have "x = e" by (simp add: callback_def)
    with xs ser show ?thesis by (simp add: d)
  qed
  from a b c d e batchWriteItem_sent [of m tableName action items schedule]
  show ?thesis by blast
qed

lemma batches_26:
  "processedItemBatches a (replicate 25 x @ [y]) =
     [take 25 (processItems a (replicate 25 x @ [y])), drop 25 (processItems a (replicate 25 x @ [y]))]"
proof -
  have u: "[0..<2] = [0, Suc 0]" by (simp add: upt_rec)
  show ?thesis by (simp add: batches_closed length_processItems u)
qed

lemma batches_26_put:
  "processedItemBatches (JStr ''put'') (replicate 25 x @ [y]) =
     [replicate 25 (put_request x), [put_request y]]"
  by (simp only: batches_26) (simp add: processItems_map)

lemma has_bigint_replicate: "has_bigint x = False \<Longrightarrow> list_ex has_bigint (replicate n x) = False"
  by (simp add: list_ex_iff)

theorem batchWriteItem_join_witness:
  "returned (batchWriteItem TS ''tbl'' (JStr ''put'')
      (replicate 25 (JObj [(''id'', JStr ''a'')]) @ [JObj [(''id'', JStr ''b'')]])
      [(1, Inl (JStr ''timeout'')), (0, Inr (JObj [(''UnprocessedItems'', JObj [])]))]) =
     Rejected (JStr ''timeout'')
   \<and> length (sent (batchWriteItem TS ''tbl'' (JStr ''put'')
      (replicate 25 (JObj [(''id'', JStr ''a'')]) @ [JObj [(''id'', JStr ''b'')]])
      [(1, Inl (JStr ''timeout'')), (0, Inr (JObj [(''UnprocessedItems'', JObj [])]))])) = 2
   \<and> returned (batchWriteItem JS ''tbl'' (JStr ''put'')
      (replicate 25 (JObj [(''id'', JStr ''a'')]) @ [JObj [(''id'', JStr ''b'')]])
      [(1, Inr (JObj [(''UnprocessedItems'', JObj [])])), (0, Inr (JObj [(''UnprocessedItems'', JObj [])]))]) =
     Fulfilled JUndefined"
proof -
  let ?items = "replicate 25 (JObj [(''id'', JStr ''a'')]) @ [JObj [(''id'', JStr ''b'')]]"
  let ?B = "processedItemBatches (JStr ''put'') ?items"
  let ?ok = "JObj [(''UnprocessedItems'', JObj [])]"
  let ?s1 = "[(1::nat, Inl (JStr ''timeout'')), (0, Inr ?ok)] :: settlement list"
  let ?s2 = "[(1::nat, Inr ?ok), (0, Inr ?ok)] :: settlement list"
  have n: "length ?B = 2"
    by (simp add: length_batches)
  have v1: "valid_schedule (length ?B) ?s1" and v2: "valid_schedule (length ?B) ?s2"
    unfolding n by (simp_all add: valid_schedule_def)
  note J1 = batchWriteItem_join [OF v1, of TS "''tbl''"]
  note J2 = batchWriteItem_join [OF v2, of JS "''tbl''"]
  have ser: "\<not> has_bigint (complete_log j (length ?B) ?ok (?B ! j))" if "j < 2" for j
    using that unfolding batches_26_put
    by (auto simp: less_2_cases_iff complete_log_def put_request_def has_bigint_replicate)
  have one: "(1, Inl (JStr ''timeout'')) \<in> set ?s1
      \<and> (\<forall>j out. (j, out) \<in> set ?s1 \<and> j \<noteq> 1 \<longrightarrow>
            (\<exists>res. out = Inr res \<and> \<not> has_bigint (complete_log j (length ?B) res (?B ! j))))
      \<and> (TS = JS \<or> \<not> has_bigint (fail_log (JStr ''put'') ?items (JStr ''timeout'')))"
    using ser [of 0]
    by (auto simp: fail_log_def convertErrorObject_def has_bigint_replicate)
  from J1 one have r1: "returned (batchWriteItem TS ''tbl'' (JStr ''put'') ?items ?s1) = Rejected (JStr ''timeout'')"
    by blast
  from J1 have "sent (batchWriteItem TS ''tbl'' (JStr ''put'') ?items ?s1) =
      map (BatchWriteCommand ''tbl'') ?B" by blast
  then have l1: "length (sent (batchWriteItem TS ''tbl'' (JStr ''put'') ?items ?s1)) = 2"
    by (simp only: length_map n)
  have all: "\<forall>i < length ?B. \<exists>res. (i, Inr res) \<in> set ?s2
                \<and> \<not> has_bigint (complete_log i (length ?B) res (?B ! i))"
  proof (intro allI impI)
    fix i assume "i < length ?B"
    then have i: "i < 2" by (simp only: n)
    then have "(i, Inr ?ok) \<in> set ?s2" by (auto simp: less_2_cases_iff)
    with ser [OF i] show "\<exists>res. (i, Inr res) \<in> set ?s2
                \<and> \<not> has_bigint (complete_log i (length ?B) res (?B ! i))" by blast
  qed
  from J2 all have r2: "returned (batchWriteItem JS ''tbl'' (JStr ''put'') ?items ?s2) = Fulfilled JUndefined"
    by blast
  from r1 l1 r2 show ?thesis by blast
qed

text \<open>
  Claim C2, as it is stated, lets the failure of any request surface to the caller.
  With 26 items, the request of the second batch failing first (a timeout) and the
  request of the first batch failing after it (a throttling error), both modules reject
  with the timeout: the throttling error reaches neither the caller nor the console.
\<close>

theorem batchWriteItem_join_counterexample:
  "returned (batchWriteItem TS ''tbl'' (JStr ''put'')
      (replicate 25 (JObj [(''id'', JStr ''a'')]) @ [JObj [(''id'', JStr ''b'')]])
      [(1, Inl (JObj [(''name'', JStr ''TimeoutError''),
                      (''message'', JStr ''socket hang up''),
                      (''stack'', JStr ''TimeoutError: socket hang up'')])),
       (0, Inl (JObj [(''name'', JStr ''ThrottlingException''),
                      (''message'', JStr ''Rate exceeded''),
                      (''stack'', JStr ''ThrottlingException: Rate exceeded'')]))]) =
     Rejected (JObj [(''name'', JStr ''TimeoutError''),
                     (''message'', JStr ''socket hang up''),
                     (''stack'', JStr ''TimeoutError: socket hang up'')])
   \<and> console (batchWriteItem TS ''tbl'' (JStr ''put'')
      (replicate 25 (JObj [(''id'', JStr ''a'')]) @ [JObj [(''id'', JStr ''b'')]])
      [(1, Inl (JObj [(''name'', JStr ''TimeoutError''),
                      (''message'', JStr ''socket hang up''),
                      (''stack'', JStr ''TimeoutError: socket hang up'')])),
       (0, Inl (JObj [(''name'', JStr ''ThrottlingException''),
                      (''message'', JStr ''Rate exceeded''),
                      (''stack'', JStr ''ThrottlingException: Rate exceeded'')]))]) =
     [JObj [(''message'', JStr ''Fail to batchWriteItem''),
            (''action'', JStr ''put''),
            (''items'', JArr (replicate 25 (JObj [(''id'', JStr ''a'')]) @ [JObj [(''id'', JStr ''b'')]])),
            (''error'', JObj [(''name'', JStr ''TimeoutError''),
                              (''message'', JStr ''socket hang up''),
                              (''stack'', JStr ''TimeoutError: socket hang up'')])]]
   \<and> returned (batchWriteItem JS ''tbl'' (JStr ''put'')
      (replicate 25 (JObj [(''id'', JStr ''a'')]) @ [JObj [(''id'', JStr ''b'')]])
      [(1, Inl (JObj [(''name'', JStr ''TimeoutError''),
                      (''message'', JStr ''socket hang up''),
                      (''stack'', JStr ''TimeoutError: socket hang up'')])),
       (0, Inl (JObj [(''name'', JStr ''ThrottlingException''),
                      (''message'', JStr ''Rate exceeded''),
                      (''stack'', JStr ''ThrottlingException: Rate exceeded'')]))]) \<noteq>
     Rejected (JObj [(''name'', JStr ''ThrottlingException''),
                     (''message'', JStr ''Rate exceeded''),
                     (''stack'', JStr ''ThrottlingException: Rate exceeded'')])"
proof -
  let ?items = "replicate 25 (JObj [(''id'', JStr ''a'')]) @ [JObj [(''id'', JStr ''b'')]]"
  let ?e1 = "JObj [(''name'', JStr ''TimeoutError''), (''message'', JStr ''socket hang up''),
                   (''stack'', JStr ''TimeoutError: socket hang up'')]"
  let ?e2 = "JObj [(''name'', JStr ''ThrottlingException''), (''message'', JStr ''Rate exceeded''),
                   (''stack'', JStr ''ThrottlingException: Rate exceeded'')]"
  have f: "\<not> has_bigint (fail_log (JStr ''put'') ?items ?e1)"
    by (simp add: fail_log_def convertErrorObject_def js_or_def has_bigint_replicate)
  have ts: "batchWriteItem TS ''tbl'' (JStr ''put'') ?items [(1, Inl ?e1), (0, Inl ?e2)] =
      \<lparr> sent = map (BatchWriteCommand ''tbl'')
                 [replicate 25 (put_request (JObj [(''id'', JStr ''a'')])),
                  [put_request (JObj [(''id'', JStr ''b'')])]],
        batchRequests = [Rejected ?e2, Rejected ?e1],
        console = [fail_log (JStr ''put'') ?items ?e1],
        returned = Rejected ?e1 \<rparr>"
    unfolding batchWriteItem_run batches_26_put
    using f by (simp add: dispatch_def settle_def callback_def catch_block_TS)
  have js: "batchWriteItem JS ''tbl'' (JStr ''put'') ?items [(1, Inl ?e1), (0, Inl ?e2)] =
      \<lparr> sent = map (BatchWriteCommand ''tbl'')
                 [replicate 25 (put_request (JObj [(''id'', JStr ''a'')])),
                  [put_request (JObj [(''id'', JStr ''b'')])]],
        batchRequests = [Rejected ?e2, Rejected ?e1],
        console = [],
        returned = Rejected ?e1 \<rparr>"
    unfolding batchWriteItem_run batches_26_put
    by (simp add: dispatch_def settle_def callback_def catch_block_JS)
  show ?thesis
    unfolding ts js by (simp add: fail_log_def convertErrorObject_def js_or_def)
qed

section \<open>The diagnostic records and the action\<close>








text \<open>
  Claim C7, as the code has it. When a callback of a batch of a call of the
  TypeScript module is the first to reject, with \<open>e\<close> (the error of a failed request,
  when no callback failed before it), and the failure record can be serialised, the
  call writes one record \<^verbatim>\<open>Fail to batchWriteItem\<close>, for \<open>e\<close>, and rejects with
  \<open>e\<close>; the record is on the console at every moment at which the caller can see the
  rejection. The record holds the action, the whole list of input items and the logger
  projection of the error. It has no \<^verbatim>\<open>batch_number\<close> and no \<^verbatim>\<open>input\<close>
  property: it names neither the failing batch nor its payload, and an error that
  arrives later leaves no record.
\<close>

theorem batchWriteItem_fail_record:
  "valid_schedule (length (processedItemBatches action items)) schedule \<Longrightarrow>
   rejections (processedItemBatches action items) schedule = e # es \<Longrightarrow>
   \<not> has_bigint (fail_log action items e) \<Longrightarrow>
   filter (\<lambda>r. js_get r ''message'' = JStr ''Fail to batchWriteItem'')
      (console (batchWriteItem TS tableName action items schedule)) =
     [JObj [(''message'', JStr ''Fail to batchWriteItem''),
            (''action'', action),
            (''items'', JArr items),
            (''error'', logger (convertErrorObject e))]]
   \<and> returned (batchWriteItem TS tableName action items schedule) = Rejected e
   \<and> (\<forall>k. returned (batchWriteItem TS tableName action items (take k schedule)) = Rejected e \<longrightarrow>
         JObj [(''message'', JStr ''Fail to batchWriteItem''),
               (''action'', action),
               (''items'', JArr items),
               (''error'', logger (convertErrorObject e))]
           \<in> set (console (batchWriteItem TS tableName action items (take k schedule))))
   \<and> (\<forall>r \<in> set (console (batchWriteItem TS tableName action items schedule)).
         js_get r ''message'' = JStr ''Fail to batchWriteItem'' \<longrightarrow>
         js_get r ''batch_number'' = JUndefined \<and> js_get r ''input'' = JUndefined)"
proof -
  let ?B = "processedItemBatches action items"
  let ?run = "\<lambda>evs. batchWriteItem TS tableName action items evs"
  let ?fail = "\<lambda>r. js_get r ''message'' = JStr ''Fail to batchWriteItem''"
  assume v: "valid_schedule (length ?B) schedule" and r: "rejections ?B schedule = e # es"
    and ser: "\<not> has_bigint (fail_log action items e)"
  have logs: "filter ?fail (console (?run evs)) =
      (case rejections ?B evs of [] \<Rightarrow> [] | x # xs \<Rightarrow> fst (catch_block TS action items x))"
    if "valid_schedule (length ?B) evs" for evs
    unfolding batchWriteItem_run by (rule run_console_fail [OF that])
  note ret = batchWriteItem_returned [of action items _ TS tableName]
  from ser have cb: "catch_block TS action items e = ([fail_log action items e], e)"
    by (simp add: catch_block_TS)
  have 1: "filter ?fail (console (?run schedule)) = [fail_log action items e]"
    by (simp add: logs [OF v] r cb)
  have 2: "returned (?run schedule) = Rejected e"
    by (simp add: ret [OF v] r cb)
  have 3: "fail_log action items e \<in> set (console (?run (take k schedule)))"
    if k: "returned (?run (take k schedule)) = Rejected e" for k
  proof -
    note vk = valid_schedule_take [OF v, of k]
    have "rejections ?B (take k schedule) @ rejections ?B (drop k schedule) = e # es"
      unfolding rejections_append [symmetric] by (simp add: r)
    moreover from k have "rejections ?B (take k schedule) \<noteq> []"
      unfolding ret [OF vk] by (auto split: list.splits if_splits)
    ultimately obtain xs where "rejections ?B (take k schedule) = e # xs"
      by (cases "rejections ?B (take k schedule)") auto
    then have "filter ?fail (console (?run (take k schedule))) = [fail_log action items e]"
      by (simp add: logs [OF vk] cb)
    then have "fail_log action items e \<in> set (filter ?fail (console (?run (take k schedule))))"
      by simp
    then show ?thesis by simp
  qed
  have 4: "js_get r ''batch_number'' = JUndefined \<and> js_get r ''input'' = JUndefined"
    if "r \<in> set (console (?run schedule))" and "?fail r" for r
  proof -
    from that have "r \<in> set (filter ?fail (console (?run schedule)))" by simp
    then have "r = fail_log action items e" unfolding 1 by simp
    then show ?thesis by (simp add: fail_log_def)
  qed
  from 1 2 3 4 show ?thesis unfolding fail_log_def by blast
qed

theorem batchWriteItem_fail_record_witness:
  "filter (\<lambda>r. js_get r ''message'' = JStr ''Fail to batchWriteItem'')
      (console (batchWriteItem TS ''tbl'' (JStr ''delete'')
         (replicate 25 (JObj [(''id'', JStr ''a'')]) @ [JObj [(''id'', JStr ''b'')]])
         [(0, Inr (JObj [])),
          (1, Inl (JObj [(''name'', JStr ''ThrottlingException''),
                         (''message'', JStr ''Rate exceeded''),
                         (''stack'', JStr ''ThrottlingException: Rate exceeded''),
                         (''$fault'', JStr ''client'')]))])) =
     [JObj [(''message'', JStr ''Fail to batchWriteItem''),
            (''action'', JStr ''delete''),
            (''items'', JArr (replicate 25 (JObj [(''id'', JStr ''a'')]) @ [JObj [(''id'', JStr ''b'')]])),
            (''error'', JObj [(''name'', JStr ''ThrottlingException''),
                              (''message'', JStr ''Rate exceeded''),
                              (''stack'', JStr ''ThrottlingException: Rate exceeded'')])]]"
proof -
  let ?items = "replicate 25 (JObj [(''id'', JStr ''a'')]) @ [JObj [(''id'', JStr ''b'')]]"
  let ?B = "processedItemBatches (JStr ''delete'') ?items"
  let ?err = "JObj [(''name'', JStr ''ThrottlingException''), (''message'', JStr ''Rate exceeded''),
                    (''stack'', JStr ''ThrottlingException: Rate exceeded''), (''$fault'', JStr ''client'')]"
  let ?s = "[(0::nat, Inr (JObj [])), (1, Inl ?err)] :: settlement list"
  have n: "length ?B = 2"
    by (simp add: length_batches)
  have v: "valid_schedule (length ?B) ?s"
    unfolding n by (simp add: valid_schedule_def)
  have B: "?B = [replicate 25 (delete_request (JObj [(''id'', JStr ''a'')])),
                 [delete_request (JObj [(''id'', JStr ''b'')])]]"
    by (simp only: batches_26) (simp add: processItems_map)
  have r: "rejections ?B ?s = ?err # []"
    unfolding B
    by (simp add: callback_def console_log_JSON_def complete_log_def delete_request_def
          has_bigint_replicate)
  have ser: "\<not> has_bigint (fail_log (JStr ''delete'') ?items ?err)"
    by (simp add: fail_log_def convertErrorObject_def js_or_def has_bigint_replicate)
  from batchWriteItem_fail_record [OF v r ser, of "''tbl''"]
  show ?thesis by (simp add: convertErrorObject_def js_or_def)
qed

text \<open>
  Claim C7, as it is stated, asks for a failure record that holds the index and count
  of the failing batch and the payload of that batch. With 26 items and the request of
  the second batch (index 1, the single operation for the last item) failing, the only
  record on the console is the one below: its \<^verbatim>\<open>items\<close> are all 26 input items,
  and no record has a \<^verbatim>\<open>batch_number\<close> or an \<^verbatim>\<open>input\<close> property.
\<close>

theorem batchWriteItem_fail_record_counterexample:
  "console (batchWriteItem TS ''tbl'' (JStr ''put'')
      (replicate 25 (JObj [(''id'', JStr ''a'')]) @ [JObj [(''id'', JStr ''b'')]])
      [(1, Inl (JObj [(''name'', JStr ''TimeoutError''),
                      (''message'', JStr ''socket hang up''),
                      (''stack'', JStr ''TimeoutError: socket hang up'')]))]) =
     [JObj [(''message'', JStr ''Fail to batchWriteItem''),
            (''action'', JStr ''put''),
            (''items'', JArr (replicate 25 (JObj [(''id'', JStr ''a'')]) @ [JObj [(''id'', JStr ''b'')]])),
            (''error'', JObj [(''name'', JStr ''TimeoutError''),
                              (''message'', JStr ''socket hang up''),
                              (''stack'', JStr ''TimeoutError: socket hang up'')])]]
   \<and> returned (batchWriteItem TS ''tbl'' (JStr ''put'')
      (replicate 25 (JObj [(''id'', JStr ''a'')]) @ [JObj [(''id'', JStr ''b'')]])
      [(1, Inl (JObj [(''name'', JStr ''TimeoutError''),
                      (''message'', JStr ''socket hang up''),
                      (''stack'', JStr ''TimeoutError: socket hang up'')]))]) =
     Rejected (JObj [(''name'', JStr ''TimeoutError''),
                     (''message'', JStr ''socket hang up''),
                     (''stack'', JStr ''TimeoutError: socket hang up'')])
   \<and> processedItemBatches (JStr ''put'')
      (replicate 25 (JObj [(''id'', JStr ''a'')]) @ [JObj [(''id'', JStr ''b'')]]) ! 1 =
     [put_request (JObj [(''id'', JStr ''b'')])]
   \<and> \<not> (\<exists>r \<in> set (console (batchWriteItem TS ''tbl'' (JStr ''put'')
              (replicate 25 (JObj [(''id'', JStr ''a'')]) @ [JObj [(''id'', JStr ''b'')]])
              [(1, Inl (JObj [(''name'', JStr ''TimeoutError''),
                              (''message'', JStr ''socket hang up''),
                              (''stack'', JStr ''TimeoutError: socket hang up'')]))])).
           js_get r ''batch_number'' \<noteq> JUndefined \<or> js_get r ''input'' \<noteq> JUndefined
           \<or> js_get r ''items'' = JArr [JObj [(''id'', JStr ''b'')]])"
proof -
  let ?items = "replicate 25 (JObj [(''id'', JStr ''a'')]) @ [JObj [(''id'', JStr ''b'')]]"
  let ?err = "JObj [(''name'', JStr ''TimeoutError''), (''message'', JStr ''socket hang up''),
                    (''stack'', JStr ''TimeoutError: socket hang up'')]"
  have f: "\<not> has_bigint (fail_log (JStr ''put'') ?items ?err)"
    by (simp add: fail_log_def convertErrorObject_def js_or_def has_bigint_replicate)
  have st: "batchWriteItem TS ''tbl'' (JStr ''put'') ?items [(1, Inl ?err)] =
      \<lparr> sent = map (BatchWriteCommand ''tbl'')
                 [replicate 25 (put_request (JObj [(''id'', JStr ''a'')])),
                  [put_request (JObj [(''id'', JStr ''b'')])]],
        batchRequests = [Pending, Rejected ?err],
        console = [fail_log (JStr ''put'') ?items ?err],
        returned = Rejected ?err \<rparr>"
    unfolding batchWriteItem_run batches_26_put
    using f by (simp add: dispatch_def settle_def callback_def catch_block_TS)
  show ?thesis
    unfolding st by (simp add: batches_26_put fail_log_def convertErrorObject_def js_or_def)
qed

lemma processItems_not_put:
  "action \<noteq> JStr ''put'' \<Longrightarrow> processItems action items = map delete_request items"
  by (simp add: processItems_map)

lemma has_bigint_fail_log:
  "has_bigint (fail_log a its e) \<longleftrightarrow>
     has_bigint a \<or> list_ex has_bigint its \<or> has_bigint (logger (convertErrorObject e))"
  by (simp add: fail_log_def)

lemma run_action_kind:
  "sent st = sent st' \<Longrightarrow> batchRequests st = batchRequests st' \<Longrightarrow>
   returned st = returned st' \<or> (\<exists>e e'. returned st = Rejected e \<and> returned st' = Rejected e') \<Longrightarrow>
   sent (foldl (settle m a its B) st evs) = sent (foldl (settle m a' its B) st' evs)
   \<and> batchRequests (foldl (settle m a its B) st evs) =
       batchRequests (foldl (settle m a' its B) st' evs)
   \<and> (returned (foldl (settle m a its B) st evs) = returned (foldl (settle m a' its B) st' evs)
      \<or> (\<exists>e e'. returned (foldl (settle m a its B) st evs) = Rejected e
                \<and> returned (foldl (settle m a' its B) st' evs) = Rejected e'))"
proof (induction evs arbitrary: st st')
  case Nil
  then show ?case by simp
next
  case (Cons ev evs)
  obtain j out where ev: "ev = (j, out)" by (cases ev)
  have s: "sent (settle m a its B st ev) = sent (settle m a' its B st' ev)"
    and b: "batchRequests (settle m a its B st ev) = batchRequests (settle m a' its B st' ev)"
    using Cons.prems by (simp_all add: ev settle_batchRequests)
  have r: "returned (settle m a its B st ev) = returned (settle m a' its B st' ev)
      \<or> (\<exists>e e'. returned (settle m a its B st ev) = Rejected e
                \<and> returned (settle m a' its B st' ev) = Rejected e')"
    using Cons.prems(2,3)
    by (cases "callback B j out") (auto simp: ev settle_returned)
  from Cons.IH [OF s b r] show ?case by simp
qed

lemma run_action_same:
  "sent st = sent st' \<Longrightarrow> batchRequests st = batchRequests st' \<Longrightarrow> returned st = returned st' \<Longrightarrow>
   \<forall>e. snd (catch_block m a its e) = snd (catch_block m a' its e) \<Longrightarrow>
   returned (foldl (settle m a its B) st evs) = returned (foldl (settle m a' its B) st' evs)"
proof (induction evs arbitrary: st st')
  case Nil
  then show ?case by simp
next
  case (Cons ev evs)
  obtain j out where ev: "ev = (j, out)" by (cases ev)
  have s: "sent (settle m a its B st ev) = sent (settle m a' its B st' ev)"
    and b: "batchRequests (settle m a its B st ev) = batchRequests (settle m a' its B st' ev)"
    and r: "returned (settle m a its B st ev) = returned (settle m a' its B st' ev)"
    using Cons.prems
    by (cases "callback B j out"; simp add: ev settle_batchRequests settle_returned)+
  from Cons.IH [OF s b r Cons.prems(4)] show ?case by simp
qed

lemma run_not_rejected:
  "rejections B evs = [] \<Longrightarrow> \<forall>e. returned st \<noteq> Rejected e \<Longrightarrow>
   \<forall>e. returned (foldl (settle m a its B) st evs) \<noteq> Rejected e"
proof (induction evs arbitrary: st)
  case Nil
  then show ?case by simp
next
  case (Cons ev evs)
  obtain j out where ev: "ev = (j, out)" by (cases ev)
  from Cons.prems(1) obtain r where cb: "callback B j out = Inr r" and rest: "rejections B evs = []"
    by (auto simp: ev split: sum.splits)
  from Cons.prems(2) cb have "\<forall>e. returned (settle m a its B st ev) \<noteq> Rejected e"
    by (simp add: ev settle_returned)
  from Cons.IH [OF rest this] show ?case by simp
qed

text \<open>
  Claim C9. The action is not validated. For every action other than the string
  \<^verbatim>\<open>"put"\<close> (another string, or a value that is no string at all) every item is
  mapped to \<^verbatim>\<open>{ DeleteRequest: { Key: item } }\<close>, the call sends the batches of
  these operations, which are the commands it sends for \<^verbatim>\<open>"delete"\<close>, and every
  callback ends as it ends for \<^verbatim>\<open>"delete"\<close>. No error comes from the action: the
  call rejects exactly when the call for \<^verbatim>\<open>"delete"\<close> rejects, it returns when
  that call returns, and it does not reject when no callback rejects. The promise of the
  call is the same as for \<^verbatim>\<open>"delete"\<close> whenever the action holds no
  \<^verbatim>\<open>BigInt\<close> (the handler of the TypeScript module serialises the action).
\<close>

theorem batchWriteItem_action_unchecked:
  "action \<noteq> JStr ''put'' \<Longrightarrow>
   concat (processedItemBatches action items) =
     map (\<lambda>item. JObj [(''DeleteRequest'', JObj [(''Key'', item)])]) items
   \<and> sent (batchWriteItem m tableName action items schedule) =
       map (BatchWriteCommand tableName) (processedItemBatches action items)
   \<and> sent (batchWriteItem m tableName action items schedule) =
       sent (batchWriteItem m tableName (JStr ''delete'') items schedule)
   \<and> batchRequests (batchWriteItem m tableName action items schedule) =
       batchRequests (batchWriteItem m tableName (JStr ''delete'') items schedule)
   \<and> ((\<exists>e. returned (batchWriteItem m tableName action items schedule) = Rejected e) \<longleftrightarrow>
       (\<exists>e. returned (batchWriteItem m tableName (JStr ''delete'') items schedule) = Rejected e))
   \<and> (\<forall>v. returned (batchWriteItem m tableName (JStr ''delete'') items schedule) = Fulfilled v \<longrightarrow>
         returned (batchWriteItem m tableName action items schedule) = Fulfilled v)
   \<and> (\<not> has_bigint action \<longrightarrow>
        returned (batchWriteItem m tableName action items schedule) =
        returned (batchWriteItem m tableName (JStr ''delete'') items schedule))
   \<and> (rejections (processedItemBatches action items) schedule = [] \<longrightarrow>
        (\<forall>e. returned (batchWriteItem m tableName action items schedule) \<noteq> Rejected e))"
proof -
  assume a: "action \<noteq> JStr ''put''"
  let ?D = "processedItemBatches (JStr ''delete'') items"
  let ?x = "batchWriteItem m tableName action items schedule"
  let ?d = "batchWriteItem m tableName (JStr ''delete'') items schedule"
  from a have ops: "processItems action items = processItems (JStr ''delete'') items"
    by (simp add: processItems_not_put)
  have 1: "concat (processedItemBatches action items) =
      map (\<lambda>item. JObj [(''DeleteRequest'', JObj [(''Key'', item)])]) items"
    by (simp only: concat_batches) (simp add: processItems_not_put [OF a] delete_request_def)
  note kind = run_action_kind
      [of "dispatch tableName ?D" "dispatch tableName ?D" m action items ?D schedule "JStr ''delete''"]
  have 2: "sent ?x = sent ?d" and 3: "batchRequests ?x = batchRequests ?d"
    and k: "returned ?x = returned ?d \<or> (\<exists>e e'. returned ?x = Rejected e \<and> returned ?d = Rejected e')"
    unfolding batchWriteItem_run ops using kind by simp_all
  from k have 4: "(\<exists>e. returned ?x = Rejected e) \<longleftrightarrow> (\<exists>e. returned ?d = Rejected e)"
    by (elim disjE exE conjE) simp_all
  have 5: "returned ?x = Fulfilled u" if "returned ?d = Fulfilled u" for u
    using k that by (elim disjE exE conjE) simp_all
  have 6: "returned ?x = returned ?d" if nb: "\<not> has_bigint action"
  proof -
    have "\<forall>e. snd (catch_block m action items e) = snd (catch_block m (JStr ''delete'') items e)"
      using nb by (cases m) (simp_all add: catch_block_TS catch_block_JS has_bigint_fail_log)
    from run_action_same [OF refl refl refl this] show ?thesis
      unfolding batchWriteItem_run ops .
  qed
  have 7: "\<forall>e. returned ?x \<noteq> Rejected e"
    if "rejections (processedItemBatches action items) schedule = []"
    unfolding batchWriteItem_run
    by (rule run_not_rejected [OF that]) (simp add: dispatch_def)
  from 1 2 3 4 5 6 7 batchWriteItem_sent [of m tableName action items schedule]
  show ?thesis by blast
qed

theorem batchWriteItem_action_unchecked_witness:
  "concat (processedItemBatches (JStr ''PUT'') [JObj [(''pk'', JStr ''k1''), (''v'', JStr ''x'')]]) =
     [JObj [(''DeleteRequest'', JObj [(''Key'', JObj [(''pk'', JStr ''k1''), (''v'', JStr ''x'')])])]]
   \<and> returned (batchWriteItem TS ''tbl'' (JStr ''PUT'') [JObj [(''pk'', JStr ''k1''), (''v'', JStr ''x'')]]
        [(0, Inl (JStr ''timeout''))]) =
      returned (batchWriteItem TS ''tbl'' (JStr ''delete'') [JObj [(''pk'', JStr ''k1''), (''v'', JStr ''x'')]]
        [(0, Inl (JStr ''timeout''))])
   \<and> returned (batchWriteItem JS ''tbl'' JUndefined [JObj [(''pk'', JStr ''k1'')]] [(0, Inr (JObj []))])
       \<noteq> Rejected (JStr ''unknown action'')"
proof -
  let ?i1 = "[JObj [(''pk'', JStr ''k1''), (''v'', JStr ''x'')]]"
  let ?i2 = "[JObj [(''pk'', JStr ''k1'')]]"
  let ?s1 = "[(0::nat, Inl (JStr ''timeout''))] :: settlement list"
  let ?s2 = "[(0::nat, Inr (JObj []))] :: settlement list"
  have a: "JStr ''PUT'' \<noteq> JStr ''put''" and b: "JUndefined \<noteq> JStr ''put''" by simp_all
  have nb: "\<not> has_bigint (JStr ''PUT'')" by simp
  have B2: "processedItemBatches JUndefined ?i2 = [[delete_request (JObj [(''pk'', JStr ''k1'')])]]"
    using batches_closed [of JUndefined ?i2] by (simp add: processItems_map)
  have r: "rejections (processedItemBatches JUndefined ?i2) ?s2 = []"
    unfolding B2
    by (simp add: callback_def console_log_JSON_def complete_log_def delete_request_def)
  note A = batchWriteItem_action_unchecked [OF a, of ?i1 TS "''tbl''" ?s1]
  note B = batchWriteItem_action_unchecked [OF b, of ?i2 JS "''tbl''" ?s2]
  from A have 1: "concat (processedItemBatches (JStr ''PUT'') ?i1) =
      map (\<lambda>item. JObj [(''DeleteRequest'', JObj [(''Key'', item)])]) ?i1" by blast
  from A nb have 2: "returned (batchWriteItem TS ''tbl'' (JStr ''PUT'') ?i1 ?s1) =
      returned (batchWriteItem TS ''tbl'' (JStr ''delete'') ?i1 ?s1)" by blast
  from B r have 3: "returned (batchWriteItem JS ''tbl'' JUndefined ?i2 ?s2) \<noteq> Rejected (JStr ''unknown action'')"
    by blast
  from 1 have c: "concat (processedItemBatches (JStr ''PUT'') ?i1) =
      [JObj [(''DeleteRequest'', JObj [(''Key'', JObj [(''pk'', JStr ''k1''), (''v'', JStr ''x'')])])]]"
    by simp
  from c 2 3 show ?thesis by blast
qed

end
